theory Spec2Isabelle
  imports Complex_Main "HOL-Library.Char_ord" "HOL-Library.List_Lexorder" "HOL-Library.AList"
    "HOL-Library.Multiset"
begin

section \<open>Python values, errors and strings\<close>

text \<open>
  A Python \<open>str\<close> is modelled as a HOL \<open>string\<close>: a list of characters, each
  standing for the code point of the same number (0 to 255). Python compares strings
  lexicographically by code point, which is the order of \<open>Char_ord\<close> and
  \<open>List_Lexorder\<close>. An \<open>int\<close> is unbounded. The floats of this program are sums
  of small multiples of 0.5 and conversions of small integers, which binary floating point
  represents exactly, and they are modelled by \<open>real\<close>.
\<close>

datatype py_error = FileNotFoundError | IndexError | ValueError | TypeError | OtherError string

datatype pyval = PyNone | PyInt int | PyFloat real

fun is_numeric :: "pyval \<Rightarrow> bool" where
  "is_numeric PyNone = False"
| "is_numeric (PyInt n) = True"
| "is_numeric (PyFloat x) = True"

definition is_digit :: "char \<Rightarrow> bool" where
  "is_digit c = (c \<in> set ''0123456789'')"

text \<open>\<open>str.isspace\<close> on the code points below 256; the same set is \<open>\s\<close> of \<open>re\<close>.\<close>

definition is_space :: "char \<Rightarrow> bool" where
  "is_space c = (c \<in> set [CHR 0x09, CHR 0x0A, CHR 0x0B, CHR 0x0C, CHR 0x0D, CHR 0x1C,
                           CHR 0x1D, CHR 0x1E, CHR 0x1F, CHR 0x20, CHR 0x85, CHR 0xA0])"

text \<open>The line boundaries of \<open>str.splitlines\<close> other than the pair CR LF.\<close>

definition is_linebreak :: "char \<Rightarrow> bool" where
  "is_linebreak c = (c \<in> set [CHR 0x0A, CHR 0x0D, CHR 0x0B, CHR 0x0C, CHR 0x1C, CHR 0x1D,
                               CHR 0x1E, CHR 0x85])"

definition is_upper :: "char \<Rightarrow> bool" where
  "is_upper c = (let n = (of_char c :: nat)
                 in (65 \<le> n \<and> n \<le> 90) \<or> (192 \<le> n \<and> n \<le> 222 \<and> n \<noteq> 215))"

definition lower_char :: "char \<Rightarrow> char" where
  "lower_char c = (if is_upper c then char_of (of_char c + (32::nat)) else c)"

text \<open>\<open>s.lower()\<close>\<close>

definition py_lower :: "string \<Rightarrow> string" where
  "py_lower s = map lower_char s"

text \<open>\<open>s.strip(chars)\<close>, the characters to remove given as a predicate, and \<open>s.strip()\<close>.\<close>

definition strip_with :: "(char \<Rightarrow> bool) \<Rightarrow> string \<Rightarrow> string" where
  "strip_with p s = rev (dropWhile p (rev (dropWhile p s)))"

definition py_strip :: "string \<Rightarrow> string" where
  "py_strip s = strip_with is_space s"

text \<open>\<open>s.splitlines()\<close>: the first argument is the line read so far.\<close>

fun splitlines_from :: "string \<Rightarrow> string \<Rightarrow> string list" where
  "splitlines_from cur [] = (if cur = [] then [] else [cur])"
| "splitlines_from cur [c] = (if is_linebreak c then [cur] else [cur @ [c]])"
| "splitlines_from cur (c # d # cs) =
     (if c = CHR 0x0D \<and> d = CHR 0x0A then cur # splitlines_from [] cs
      else if is_linebreak c then cur # splitlines_from [] (d # cs)
      else splitlines_from (cur @ [c]) (d # cs))"

definition splitlines :: "string \<Rightarrow> string list" where
  "splitlines s = splitlines_from [] s"

text \<open>\<open>s.split()\<close>: the maximal runs of characters that are not whitespace.\<close>

fun split_ws_from :: "string \<Rightarrow> string \<Rightarrow> string list" where
  "split_ws_from cur [] = (if cur = [] then [] else [cur])"
| "split_ws_from cur (c # cs) =
     (if is_space c then (if cur = [] then split_ws_from [] cs else cur # split_ws_from [] cs)
      else split_ws_from (cur @ [c]) cs)"

definition py_split :: "string \<Rightarrow> string list" where
  "py_split s = split_ws_from [] s"

fun starts_with :: "string \<Rightarrow> string \<Rightarrow> bool" where
  "starts_with [] s = True"
| "starts_with (p # ps) [] = False"
| "starts_with (p # ps) (c # cs) = (p = c \<and> starts_with ps cs)"

text \<open>\<open>sub in s\<close>\<close>

fun py_in :: "string \<Rightarrow> string \<Rightarrow> bool" where
  "py_in sub [] = (sub = [])"
| "py_in sub (c # cs) = (starts_with sub (c # cs) \<or> py_in sub cs)"

text \<open>\<open>s.split(sep)[0]\<close> for a separator that is not empty: the text before its first occurrence.\<close>

fun split_head :: "string \<Rightarrow> string \<Rightarrow> string" where
  "split_head sep [] = []"
| "split_head sep (c # cs) = (if starts_with sep (c # cs) then [] else c # split_head sep cs)"

text \<open>\<open>sep.join(xs)\<close>\<close>

fun py_join :: "string \<Rightarrow> string list \<Rightarrow> string" where
  "py_join sep [] = []"
| "py_join sep [x] = x"
| "py_join sep (x # y # ys) = x @ sep @ py_join sep (y # ys)"

text \<open>\<open>int(s)\<close> on a string of decimal digits; anything else is reported as \<open>ValueError\<close>.\<close>

definition digit_value :: "char \<Rightarrow> int" where
  "digit_value c = int (of_char c) - 48"

definition decimal_value :: "string \<Rightarrow> int" where
  "decimal_value s = foldl (\<lambda>a c. 10 * a + digit_value c) 0 s"

definition py_int_of_str :: "string \<Rightarrow> py_error + int" where
  "py_int_of_str s =
     (if s \<noteq> [] \<and> list_all is_digit s then Inr (decimal_value s) else Inl ValueError)"

section \<open>Regular expressions with the backtracking order of \<open>re\<close>\<close>

text \<open>
  The patterns of the program use character classes, bounded and unbounded greedy
  repetition of a class, optional groups, sequence and ordered alternation.
  \<open>rmatch r s\<close> lists what is left of \<open>s\<close> after each way \<open>r\<close> can match a prefix of it,
  in the order in which the backtracking matcher tries them: a greedy repetition the longest
  first, an alternation from left to right, an optional group present first. The match that
  \<open>re\<close> reports at a position is the first of the list.
\<close>

datatype regex =
    Eps
  | Chars "char \<Rightarrow> bool"
  | Rep "char \<Rightarrow> bool" nat "nat option"
  | Opt regex
  | Seq regex regex
  | Alt regex regex

fun rmatch :: "regex \<Rightarrow> string \<Rightarrow> string list" where
  "rmatch Eps s = [s]"
| "rmatch (Chars p) s = (case s of [] \<Rightarrow> [] | c # cs \<Rightarrow> if p c then [cs] else [])"
| "rmatch (Rep p lo hi) s =
     (let n = length (takeWhile p s);
          m = (case hi of None \<Rightarrow> n | Some h \<Rightarrow> min h n)
      in map (\<lambda>k. drop k s) (rev [lo ..< Suc m]))"
| "rmatch (Opt r) s = rmatch r s @ [s]"
| "rmatch (Seq a b) s = concat (map (rmatch b) (rmatch a s))"
| "rmatch (Alt a b) s = rmatch a s @ rmatch b s"

text \<open>The length of the match at the start of \<open>s\<close>, if there is one.\<close>

definition match_len :: "regex \<Rightarrow> string \<Rightarrow> nat option" where
  "match_len r s = (case rmatch r s of [] \<Rightarrow> None | rest # _ \<Rightarrow> Some (length s - length rest))"

text \<open>
  \<open>[m.group(0) for m in r.finditer(s)]\<close>: the matches from left to right, each search
  resuming where the previous match ended. No pattern of the program matches the empty string.
\<close>

fun finditer :: "regex \<Rightarrow> string \<Rightarrow> string list" where
  "finditer r [] = []"
| "finditer r (c # cs) =
     (case match_len r (c # cs) of
        None \<Rightarrow> finditer r cs
      | Some n \<Rightarrow> take n (c # cs) # finditer r (drop (n - 1) cs))"

text \<open>\<open>r.search(s)\<close>: the first match, \<open>None\<close> when there is none.\<close>

definition re_search :: "regex \<Rightarrow> string \<Rightarrow> string option" where
  "re_search r s = (case finditer r s of [] \<Rightarrow> None | m # _ \<Rightarrow> Some m)"

text \<open>A literal word under \<open>re.IGNORECASE\<close>.\<close>

fun lit_i :: "string \<Rightarrow> regex" where
  "lit_i [] = Eps"
| "lit_i (x # xs) = Seq (Chars (\<lambda>c. lower_char c = lower_char x)) (lit_i xs)"

fun alts :: "regex list \<Rightarrow> regex" where
  "alts [] = Chars (\<lambda>c. False)"
| "alts [r] = r"
| "alts (r # rs) = Alt r (alts rs)"

section \<open>The parsed r\'esum\'e\<close>

text \<open>
  A parsed r\'esum\'e is a dictionary with string keys. Its fields are read with
  \<open>parsed.get(key, default)\<close>, so each field may be absent: a field is an option, and
  \<open>None\<close> is the absent key. The entries of \<open>experience\<close> are dictionaries read the same way.
  The field \<open>p_name\<close> is the key \<open>"name"\<close>, \<open>e_title\<close> the key \<open>"title"\<close>, and so on.
\<close>

record exp_entry =
  e_title :: "string option"
  e_date_text :: "string option"
  e_bullets :: "string list option"

record parsed =
  p_name :: "string option"
  p_emails :: "string list option"
  p_phones :: "string list option"
  p_skills :: "string list option"
  p_experience :: "exp_entry list option"
  p_education :: "string list option"
  p_sections :: "string list option"
  p_raw_text :: "string option"

section \<open>parser.py\<close>

text \<open>
  \<open>spacy\<close> is an external library: \<open>nlp(text)\<close> is a parameter of the model. It either
  raises or gives a document whose \<open>text\<close> is the input and whose \<open>ents\<close> are the entities
  that the statistical model found.
\<close>

record ent =
  ent_label :: string
  ent_start_char :: nat
  ent_text :: string

record doc =
  doc_text :: string
  ents :: "ent list"

definition SKILLS_SEED :: "string list" where
  "SKILLS_SEED =
     [''python'', ''java'', ''c++'', ''c'', ''tensorflow'', ''pytorch'', ''scikit-learn'',
      ''docker'', ''kubernetes'', ''aws'', ''gcp'', ''azure'', ''nlp'', ''computer vision'',
      ''pandas'', ''numpy'', ''sql'', ''nosql'', ''react'', ''nodejs'', ''git'', ''rest'']"

definition is_alnum_ascii :: "char \<Rightarrow> bool" where
  "is_alnum_ascii c =
     (c \<in> set ''abcdefghijklmnopqrstuvwxyzABCDEFGHIJKLMNOPQRSTUVWXYZ0123456789'')"

text \<open>\<open>EMAIL_RE = ([a-zA-Z0-9_.+-]+@[a-zA-Z0-9-]+\.[a-zA-Z0-9-.]+)\<close>\<close>

definition EMAIL_RE :: regex where
  "EMAIL_RE =
     Seq (Rep (\<lambda>c. is_alnum_ascii c \<or> c \<in> set ''_.+-'') 1 None)
    (Seq (Chars (\<lambda>c. c = CHR ''@''))
    (Seq (Rep (\<lambda>c. is_alnum_ascii c \<or> c = CHR ''-'') 1 None)
    (Seq (Chars (\<lambda>c. c = CHR ''.''))
         (Rep (\<lambda>c. is_alnum_ascii c \<or> c \<in> set ''-.'') 1 None))))"

text \<open>\<open>PHONE_RE = (\+?\d{1,4}[\s\-]?)?(\(?\d{2,4}\)?[\s\-]?)?[\d\s\-]{6,12}\<close>\<close>

definition PHONE_RE :: regex where
  "PHONE_RE =
     Seq (Opt (Seq (Rep (\<lambda>c. c = CHR ''+'') 0 (Some 1))
              (Seq (Rep is_digit 1 (Some 4))
                   (Rep (\<lambda>c. is_space c \<or> c = CHR ''-'') 0 (Some 1)))))
    (Seq (Opt (Seq (Rep (\<lambda>c. c = CHR ''('') 0 (Some 1))
              (Seq (Rep is_digit 2 (Some 4))
              (Seq (Rep (\<lambda>c. c = CHR '')'') 0 (Some 1))
                   (Rep (\<lambda>c. is_space c \<or> c = CHR ''-'') 0 (Some 1))))))
         (Rep (\<lambda>c. is_digit c \<or> is_space c \<or> c = CHR ''-'') 6 (Some 12)))"

text \<open>
  \<open>DATE_RANGE_RE\<close>, compiled with \<open>re.IGNORECASE\<close>: a month name or four digits, then up
  to 30 characters other than comma, LF and CR, then four digits. Its only capturing group
  is the whole pattern, so \<open>findall\<close> lists the whole matches.
\<close>

definition DATE_RANGE_RE :: regex where
  "DATE_RANGE_RE =
     Seq (alts (map lit_i
                  [''Jan'', ''Feb'', ''Mar'', ''Apr'', ''May'', ''Jun'', ''Jul'', ''Aug'', ''Sep'',
                   ''Sept'', ''Oct'', ''Nov'', ''Dec'', ''January'', ''February'', ''March'',
                   ''April'', ''May'', ''June'', ''July'', ''August'', ''September'', ''October'',
                   ''November'', ''December'']
                @ [Rep is_digit 4 (Some 4)]))
    (Seq (Rep (\<lambda>c. c \<notin> set [CHR '','', CHR 0x0A, CHR 0x0D]) 0 (Some 30))
         (Rep is_digit 4 (Some 4)))"

definition SECTION_HEADERS :: "string list" where
  "SECTION_HEADERS =
     [''experience'', ''work experience'', ''professional experience'', ''education'',
      ''skills'', ''projects'', ''certifications'', ''summary'', ''objective'']"

text \<open>
  \<open>list(set(...))\<close>: the order in which CPython lists a set of strings depends on the hash
  seed of the process, so it is the parameter \<open>set_order\<close>.
\<close>

definition extract_emails :: "(string set \<Rightarrow> string list) \<Rightarrow> string \<Rightarrow> string list" where
  "extract_emails set_order text = set_order (set (finditer EMAIL_RE text))"

text \<open>\<open>list(dict.fromkeys(xs))\<close>: the first occurrence of each element, in order.\<close>

definition dict_fromkeys :: "'a list \<Rightarrow> 'a list" where
  "dict_fromkeys xs = rev (remdups (rev xs))"

definition extract_phones :: "string \<Rightarrow> string list" where
  "extract_phones text = dict_fromkeys (map py_strip (finditer PHONE_RE text))"

fun skills_loop :: "string \<Rightarrow> string set \<Rightarrow> string list \<Rightarrow> string set" where
  "skills_loop text_low found [] = found"
| "skills_loop text_low found (s # ss) =
     (if py_in (py_lower s) text_low then skills_loop text_low (insert s found) ss
      else skills_loop text_low found ss)"

definition extract_skills :: "string \<Rightarrow> string list \<Rightarrow> string list" where
  "extract_skills text skills_seed =
     (let text_low = py_lower text;
          found = skills_loop text_low {} skills_seed
      in sorted_list_of_set found)"

text \<open>
  A \<open>dict\<close> from strings to strings keeps its keys in the order of their insertion, and
  \<open>parse_text\<close> iterates over it: it is a list of pairs with distinct keys.
  \<open>dict_append d k v\<close> is \<open>d.setdefault(k, ""); d[k] += v\<close>.
\<close>

type_synonym str_dict = "(string \<times> string) list"

definition dict_append :: "str_dict \<Rightarrow> string \<Rightarrow> string \<Rightarrow> str_dict" where
  "dict_append d k v =
     (if k \<in> set (map fst d)
      then map (\<lambda>(k', v'). if k' = k then (k', v' @ v) else (k', v')) d
      else d @ [(k, v)])"

text \<open>The three places of \<open>split_into_sections\<close> that empty the buffer into the current section.\<close>

definition flush :: "str_dict \<Rightarrow> string \<Rightarrow> string list \<Rightarrow> str_dict" where
  "flush sections current buffer =
     (if buffer \<noteq> [] then dict_append sections current (py_join [CHR 0x0A] buffer @ [CHR 0x0A])
      else sections)"

fun sections_loop :: "str_dict \<Rightarrow> string \<Rightarrow> string list \<Rightarrow> string list \<Rightarrow> str_dict" where
  "sections_loop sections current buffer [] = flush sections current buffer"
| "sections_loop sections current buffer (l # ls) =
     (let low = py_strip (strip_with (\<lambda>c. c = CHR '':'') (py_lower l))
      in if length l = 0 then sections_loop (flush sections current buffer) current [] ls
         else if list_ex (\<lambda>h. py_in h low) SECTION_HEADERS \<and> length (py_split l) \<le> 5
         then sections_loop (flush sections current buffer) low [] ls
         else sections_loop sections current (buffer @ [l]) ls)"

definition split_into_sections :: "string \<Rightarrow> str_dict" where
  "split_into_sections text =
     (let lines = map py_strip (splitlines text)
      in sections_loop [] ''header'' [] lines)"

fun first_person :: "ent list \<Rightarrow> string option" where
  "first_person [] = None"
| "first_person (ent # rest) =
     (if ent_label ent = ''PERSON'' \<and> ent_start_char ent < 120 then Some (ent_text ent)
      else first_person rest)"

text \<open>Indexing the list of lines with \<open>[0]\<close> raises \<open>IndexError\<close> when the list is empty.\<close>

definition extract_name :: "doc \<Rightarrow> py_error + string" where
  "extract_name d =
     (case first_person (ents d) of
        Some t \<Rightarrow> Inr t
      | None \<Rightarrow>
          (case splitlines (py_strip (doc_text d)) of
             [] \<Rightarrow> Inl IndexError
           | first_line # _ \<Rightarrow>
               if length (py_split first_line) \<le> 4 then Inr (py_strip first_line) else Inr []))"

text \<open>\<open>DATE_RANGE_RE.search(l)\<close> as a condition.\<close>

definition has_date :: "string \<Rightarrow> bool" where
  "has_date l = (re_search DATE_RANGE_RE l \<noteq> None)"

text \<open>
  The inner loop of the first branch of \<open>parse_experience_block\<close>, from \<open>j\<close> and
  \<open>bullets\<close>; it gives the bullets and the index where it stopped.
\<close>

function bullets_until_date :: "string list \<Rightarrow> nat \<Rightarrow> string list \<Rightarrow> string list \<times> nat" where
  "bullets_until_date lines j bullets =
     (if j < length lines \<and> length (py_split (lines ! j)) > 2 then
        (if has_date (lines ! j) then (bullets, j)
         else bullets_until_date lines (j + 1) (bullets @ [lines ! j]))
      else (bullets, j))"
  by pat_completeness auto
termination
  by (relation "measure (\<lambda>(lines, j, bullets). length lines - j)") auto

declare bullets_until_date.simps [simp del]

text \<open>The inner loop of the second branch.\<close>

function bullets_lookahead :: "string list \<Rightarrow> nat \<Rightarrow> string list \<Rightarrow> string list \<times> nat" where
  "bullets_lookahead lines j bullets =
     (if j < length lines \<and> \<not> has_date (lines ! j)
      then bullets_lookahead lines (j + 1) (bullets @ [lines ! j])
      else (bullets, j))"
  by pat_completeness auto
termination
  by (relation "measure (\<lambda>(lines, j, bullets). length lines - j)") auto

declare bullets_lookahead.simps [simp del]

text \<open>
  One iteration of the outer loop at index \<open>i < len(lines)\<close>: the entry that it appends to
  \<open>out\<close> and the index at which the loop resumes.
\<close>

definition pe_step :: "string list \<Rightarrow> nat \<Rightarrow> exp_entry \<times> nat" where
  "pe_step lines i =
     (let line = lines ! i;
          dates = finditer DATE_RANGE_RE line
      in if dates \<noteq> [] then
           (let title = split_head '' - '' line;
                date_text = dates ! 0;
                (bullets, j) = bullets_until_date lines (i + 1) []
            in (\<lparr>e_title = Some (py_strip title), e_date_text = Some (py_strip date_text),
                 e_bullets = Some bullets\<rparr>, j))
         else if i + 1 < length lines \<and> has_date (lines ! (i + 1)) then
           (let title = line;
                date_text = the (re_search DATE_RANGE_RE (lines ! (i + 1)));
                (bullets, j) = bullets_lookahead lines (i + 2) []
            in (\<lparr>e_title = Some (py_strip title), e_date_text = Some (py_strip date_text),
                 e_bullets = Some bullets\<rparr>, j))
         else (\<lparr>e_title = Some line, e_date_text = Some [], e_bullets = Some []\<rparr>, i + 1))"

text \<open>
  The outer loop \<open>while i < len(lines)\<close>. It ends because each iteration resumes at a
  larger index.
\<close>

function pe_loop :: "string list \<Rightarrow> nat \<Rightarrow> exp_entry list \<Rightarrow> exp_entry list" where
  "pe_loop lines i out =
     (if i < length lines
      then (case pe_step lines i of (entry, j) \<Rightarrow> pe_loop lines j (out @ [entry]))
      else out)"
  by pat_completeness auto
termination
proof -
  have until: "j \<le> snd (bullets_until_date lines j bullets)" for lines j bullets
  proof (induction lines j bullets rule: bullets_until_date.induct)
    case (1 lines j bullets)
    show ?case
      using "1.IH" by (subst bullets_until_date.simps) auto
  qed
  have ahead: "j \<le> snd (bullets_lookahead lines j bullets)" for lines j bullets
  proof (induction lines j bullets rule: bullets_lookahead.induct)
    case (1 lines j bullets)
    show ?case
      using "1.IH" by (subst bullets_lookahead.simps) auto
  qed
  have step: "i < snd (pe_step lines i)" for lines i
    using until [of "i + 1" lines "[]"] ahead [of "i + 2" lines "[]"]
    by (auto simp: pe_step_def Let_def split: prod.splits)
  show ?thesis
    apply (relation "measure (\<lambda>(lines, i, out). length lines - i)")
     apply simp
    subgoal for lines i out entry j
      using step [of i lines] by (cases "pe_step lines i") auto
    done
qed

declare pe_loop.simps [simp del]

text \<open>
  The same loop with a budget of iterations: \<open>None\<close> when the budget does not suffice to
  reach the end of the loop.
\<close>

fun pe_iterate :: "nat \<Rightarrow> string list \<Rightarrow> nat \<Rightarrow> exp_entry list \<Rightarrow> exp_entry list option" where
  "pe_iterate n lines i out =
     (if i < length lines
      then (case n of
              0 \<Rightarrow> None
            | Suc m \<Rightarrow> (case pe_step lines i of (entry, j) \<Rightarrow> pe_iterate m lines j (out @ [entry])))
      else Some out)"

declare pe_iterate.simps [simp del]

text \<open>\<open>[l.strip() for l in block_text.splitlines() if l.strip()]\<close>\<close>

definition block_lines :: "string \<Rightarrow> string list" where
  "block_lines block_text = [py_strip l. l \<leftarrow> splitlines block_text, py_strip l \<noteq> []]"

definition parse_experience_block :: "string \<Rightarrow> exp_entry list" where
  "parse_experience_block block_text =
     (let out = [];
          lines = block_lines block_text;
          i = 0
      in pe_loop lines i out)"

text \<open>
  \<open>parse_text\<close>, with the two parameters of the surroundings: \<open>nlp\<close> gives the entities
  of a text or raises, \<open>set_order\<close> lists a set. The dictionary it returns has all eight keys.
\<close>

definition parse_text ::
  "(string \<Rightarrow> py_error + ent list) \<Rightarrow> (string set \<Rightarrow> string list) \<Rightarrow> string \<Rightarrow> py_error + parsed" where
  "parse_text nlp set_order text =
     (case nlp text of
        Inl err \<Rightarrow> Inl err
      | Inr found_ents \<Rightarrow>
          (let d = \<lparr>doc_text = text, ents = found_ents\<rparr>
           in case extract_name d of
                Inl err \<Rightarrow> Inl err
              | Inr name \<Rightarrow>
                  (let emails = extract_emails set_order text;
                       phones = extract_phones text;
                       skills = extract_skills text SKILLS_SEED;
                       sections = split_into_sections text;
                       experience_blocks =
                         concat [parse_experience_block block.
                                 (key, block) \<leftarrow> sections, py_in ''experience'' key \<or> py_in ''work'' key];
                       education =
                         concat [[py_strip l. l \<leftarrow> splitlines block, py_strip l \<noteq> []].
                                 (key, block) \<leftarrow> sections, py_in ''education'' key]
                   in Inr \<lparr>p_name = Some name, p_emails = Some emails, p_phones = Some phones,
                           p_skills = Some skills, p_experience = Some experience_blocks,
                           p_education = Some education, p_sections = Some (map fst sections),
                           p_raw_text = Some text\<rparr>)))"

section \<open>feature\_extractor.py\<close>

text \<open>\<open>d.get(key, default)\<close>\<close>

definition get_or :: "'a option \<Rightarrow> 'a \<Rightarrow> 'a" where
  "get_or field dflt = (case field of None \<Rightarrow> dflt | Some v \<Rightarrow> v)"

text \<open>\<open>DATE_RE = re.compile(r'(\d{4})')\<close>\<close>

definition DATE_RE :: regex where
  "DATE_RE = Rep is_digit 4 (Some 4)"

text \<open>
  The loop of \<open>estimate_years_experience\<close> over the experience entries: \<open>years\<close> is the
  list built so far. An exception of \<open>int\<close> skips the entry (\<open>except: continue\<close>).
\<close>

fun years_loop :: "int list \<Rightarrow> exp_entry list \<Rightarrow> int list" where
  "years_loop years [] = years"
| "years_loop years (ex # exps) =
     (let dt = get_or (e_date_text ex) [];
          found = finditer DATE_RE dt
      in if length found \<ge> 2 then
           (case py_int_of_str (found ! 0) of
              Inl e \<Rightarrow> years_loop years exps
            | Inr start \<Rightarrow>
                (case py_int_of_str (found ! 1) of
                   Inl e \<Rightarrow> years_loop years exps
                 | Inr endy \<Rightarrow> years_loop (years @ [max 0 (endy - start)]) exps))
         else if length found = 1 then years_loop (years @ [1]) exps
         else years_loop years exps)"

text \<open>\<open>sum(len(exp.get("bullets", [])) for exp in parsed.get("experience", []))\<close>\<close>

definition count_bullets :: "parsed \<Rightarrow> nat" where
  "count_bullets p = sum_list (map (\<lambda>ex. length (get_or (e_bullets ex) [])) (get_or (p_experience p) []))"

definition estimate_years_experience :: "parsed \<Rightarrow> real" where
  "estimate_years_experience p =
     (let years = years_loop [] (get_or (p_experience p) [])
      in if years = [] then min (1.0 + real (count_bullets p) * 0.5) 20.0
         else real_of_int (sum_list years))"

definition count_skills :: "parsed \<Rightarrow> int" where
  "count_skills p = int (length (get_or (p_skills p) []))"

text \<open>The truth value of \<open>parsed.get(key)\<close> for a list field: present and not empty.\<close>

definition truthy :: "'a list option \<Rightarrow> bool" where
  "truthy field = (case field of None \<Rightarrow> False | Some xs \<Rightarrow> xs \<noteq> [])"

definition formatting_score :: "parsed \<Rightarrow> real" where
  "formatting_score p =
     (let score0 = 0.0;
          n_sections = max 0 (int (length (get_or (p_sections p) [])));
          score1 = score0 + real_of_int (min n_sections 5) * 2.0;
          score2 = (if truthy (p_emails p) then score1 + 3.0 else score1);
          score3 = (if truthy (p_phones p) then score2 + 2.0 else score2);
          n_bullets = count_bullets p
      in score3 + real (min n_bullets 10) * 0.5)"

text \<open>
  The feature dictionary: a \<open>dict\<close> keeps its keys in the order of their insertion, so it is
  a list of pairs; \<open>AList.update k v d\<close> is the assignment \<open>d[k] = v\<close>, and \<open>map_of d k\<close>
  the lookup.
\<close>

type_synonym features = "(string \<times> pyval) list"

definition extract_features :: "parsed \<Rightarrow> features" where
  "extract_features p =
     (let feats0 = [];
          feats1 = AList.update ''years_exp'' (PyFloat (estimate_years_experience p)) feats0;
          feats2 = AList.update ''skill_count'' (PyInt (count_skills p)) feats1;
          feats3 = AList.update ''format_score'' (PyFloat (formatting_score p)) feats2
      in AList.update ''num_experience_items''
           (PyInt (max 0 (int (length (get_or (p_experience p) []))))) feats3)"

section \<open>scorer.py\<close>

text \<open>
  The classifier is an object of \<open>sklearn\<close> read from the model file. \<open>clf_predict X\<close> is
  \<open>model.predict([X])[0]\<close>; \<open>clf_predict_proba\<close> is \<open>None\<close> when the object has no
  attribute \<open>predict_proba\<close>, and otherwise gives \<open>model.predict_proba([X])[0]\<close>. Both may raise.
  The model file is \<open>None\<close> when \<open>MODEL_PATH\<close> does not exist, and otherwise holds what
  \<open>joblib.load\<close> and the unpacking of its result give.
\<close>

record classifier =
  clf_predict :: "pyval list \<Rightarrow> py_error + pyval"
  clf_predict_proba :: "(pyval list \<Rightarrow> py_error + real list) option"

type_synonym model_file = "(py_error + classifier \<times> string list) option"

record score =
  label :: "int option"
  confidence :: "real option"

definition load_model :: "model_file \<Rightarrow> py_error + classifier \<times> string list" where
  "load_model file =
     (case file of
        None \<Rightarrow> Inl FileNotFoundError
      | Some loaded \<Rightarrow> loaded)"

text \<open>\<open>int(x)\<close> on a number truncates towards zero.\<close>

definition py_int :: "pyval \<Rightarrow> py_error + int" where
  "py_int v =
     (case v of
        PyNone \<Rightarrow> Inl TypeError
      | PyInt n \<Rightarrow> Inr n
      | PyFloat x \<Rightarrow> Inr (if 0 \<le> x then \<lfloor>x\<rfloor> else \<lceil>x\<rceil>))"

text \<open>\<open>row.max()\<close>; the maximum of an empty array raises \<open>ValueError\<close>.\<close>

definition array_max :: "real list \<Rightarrow> py_error + real" where
  "array_max row = (case row of [] \<Rightarrow> Inl ValueError | x # xs \<Rightarrow> Inr (fold max xs x))"

text \<open>\<open>X = [features.get(f, 0) for f in feature_list]\<close>\<close>

definition classifier_input :: "features \<Rightarrow> string list \<Rightarrow> pyval list" where
  "classifier_input feats feature_list = map (\<lambda>f. get_or (map_of feats f) (PyInt 0)) feature_list"

text \<open>The value of \<open>prob\<close> before the \<open>return\<close> of \<open>predict\<close>.\<close>

definition predict_prob :: "classifier \<Rightarrow> pyval list \<Rightarrow> py_error + real option" where
  "predict_prob model X =
     (case clf_predict_proba model of
        None \<Rightarrow> Inr None
      | Some proba \<Rightarrow>
          (case proba X of
             Inl err \<Rightarrow> Inl err
           | Inr row \<Rightarrow> (case array_max row of Inl err \<Rightarrow> Inl err | Inr m \<Rightarrow> Inr (Some m))))"

definition predict :: "model_file \<Rightarrow> features \<Rightarrow> py_error + score" where
  "predict file feats =
     (case load_model file of
        Inl err \<Rightarrow> Inl err
      | Inr (model, feature_list) \<Rightarrow>
          (let X = classifier_input feats feature_list
           in case clf_predict model X of
                Inl err \<Rightarrow> Inl err
              | Inr score_label \<Rightarrow>
                  (case predict_prob model X of
                     Inl err \<Rightarrow> Inl err
                   | Inr prob \<Rightarrow>
                       (case py_int score_label of
                          Inl err \<Rightarrow> Inl err
                        | Inr n \<Rightarrow> Inr \<lparr>label = Some n, confidence = prob\<rparr>))))"

section \<open>predict.py\<close>

record env =
  nlp :: "string \<Rightarrow> py_error + ent list"
  set_order :: "string set \<Rightarrow> string list"
  model :: model_file

record inference_output =
  o_parsed :: parsed
  o_features :: features
  o_score :: score

text \<open>Only \<open>FileNotFoundError\<close> is caught; every other exception leaves the function.\<close>

definition run_inference_on_text :: "env \<Rightarrow> string \<Rightarrow> py_error + inference_output" where
  "run_inference_on_text env text =
     (case parse_text (nlp env) (set_order env) text of
        Inl err \<Rightarrow> Inl err
      | Inr parsed \<Rightarrow>
          (let feats = extract_features parsed
           in case (case predict (model env) feats of
                      Inl FileNotFoundError \<Rightarrow> Inr \<lparr>label = None, confidence = None\<rparr>
                    | Inl err \<Rightarrow> Inl err
                    | Inr sc \<Rightarrow> Inr sc) of
                Inl err \<Rightarrow> Inl err
              | Inr sc \<Rightarrow> Inr \<lparr>o_parsed = parsed, o_features = feats, o_score = sc\<rparr>))"

section \<open>The statements of the specification\<close>

text \<open>
  The date-range heuristic in the words of the specification: the 4-digit years of an
  entry, and what the entry contributes to the list of years.
\<close>

definition years_found :: "exp_entry \<Rightarrow> string list" where
  "years_found e = finditer DATE_RE (get_or (e_date_text e) [])"

definition contribution :: "exp_entry \<Rightarrow> int list" where
  "contribution e =
     (case years_found e of
        [] \<Rightarrow> []
      | [y] \<Rightarrow> [1]
      | y1 # y2 # _ \<Rightarrow> [max 0 (decimal_value y2 - decimal_value y1)])"

text \<open>
  The sections in the words of the specification. A header is a line of at most 5 words
  separated by whitespace whose lowercased form, stripped of colons, contains a known
  keyword. Every line that is neither blank nor a header is given the name of the section it
  falls in, the name changing at the header lines only; the text of a section is made of its
  lines, each ended by a line feed.
\<close>

definition section_name :: "string \<Rightarrow> string" where
  "section_name l = py_strip (strip_with (\<lambda>c. c = CHR '':'') (py_lower l))"

definition is_section_header :: "string \<Rightarrow> bool" where
  "is_section_header l =
     (length (py_split l) \<le> 5 \<and> list_ex (\<lambda>h. py_in h (section_name l)) SECTION_HEADERS)"

fun tag_lines :: "string \<Rightarrow> string list \<Rightarrow> (string \<times> string) list" where
  "tag_lines current [] = []"
| "tag_lines current (l # ls) =
     (if l = [] then tag_lines current ls
      else if is_section_header l then tag_lines (section_name l) ls
      else (current, l) # tag_lines current ls)"

definition section_lines :: "(string \<times> string) list \<Rightarrow> string \<Rightarrow> string list" where
  "section_lines tagged k = map snd (filter (\<lambda>x. fst x = k) tagged)"

definition nl_concat :: "string list \<Rightarrow> string" where
  "nl_concat ls = concat (map (\<lambda>l. l @ [CHR 0x0A]) ls)"

definition section_text :: "(string \<times> string) list \<Rightarrow> string \<Rightarrow> string" where
  "section_text tagged k = nl_concat (section_lines tagged k)"

text \<open>
  For the proof: the text that a dictionary holds under a key, empty for a missing key, and
  the dictionaries with distinct keys and no empty text.
\<close>

definition cont :: "str_dict \<Rightarrow> string \<Rightarrow> string" where
  "cont d k = (case map_of d k of None \<Rightarrow> [] | Some v \<Rightarrow> v)"

definition dict_ok :: "str_dict \<Rightarrow> bool" where
  "dict_ok d \<longleftrightarrow> distinct (map fst d) \<and> [] \<notin> snd ` set d"

text \<open>
  The pipeline in the words of the specification: the three stages composed, an exception of
  any stage ending the run.
\<close>

definition pipeline :: "env \<Rightarrow> string \<Rightarrow> py_error + inference_output" where
  "pipeline env text =
     (case parse_text (nlp env) (set_order env) text of
        Inl err \<Rightarrow> Inl err
      | Inr p \<Rightarrow>
          (case predict (model env) (extract_features p) of
             Inl err \<Rightarrow> Inl err
           | Inr sc \<Rightarrow> Inr \<lparr>o_parsed = p, o_features = extract_features p, o_score = sc\<rparr>))"

text \<open>The inputs of the examples.\<close>

definition no_entities :: "string \<Rightarrow> py_error + ent list" where
  "no_entities text = Inr []"

definition constant_classifier :: classifier where
  "constant_classifier =
     \<lparr>clf_predict = (\<lambda>X. Inr (PyInt 1)), clf_predict_proba = Some (\<lambda>X. Inr [1 / 4, 3 / 4])\<rparr>"

definition bare_classifier :: classifier where
  "bare_classifier = \<lparr>clf_predict = (\<lambda>X. Inr (PyInt 1)), clf_predict_proba = None\<rparr>"

definition feature_names :: "string list" where
  "feature_names = [''years_exp'', ''skill_count'', ''format_score'', ''num_experience_items'']"

definition env_without_model :: env where
  "env_without_model = \<lparr>nlp = no_entities, set_order = sorted_list_of_set, model = None\<rparr>"

definition env_with_model :: env where
  "env_with_model =
     \<lparr>nlp = no_entities, set_order = sorted_list_of_set,
      model = Some (Inr (constant_classifier, feature_names))\<rparr>"

definition corrupt_file :: model_file where
  "corrupt_file = Some (Inl (OtherError ''corrupt''))"

definition three_lines :: "string list" where
  "three_lines = [''Dev'', ''2017 2018'', ''x'']"

definition al_parsed :: parsed where
  "al_parsed = \<lparr>p_name = Some ''Al'', p_emails = Some [], p_phones = Some [], p_skills = Some [],
     p_experience = Some [], p_education = Some [], p_sections = Some [''header''],
     p_raw_text = Some ''Al''\<rparr>"

definition al_features :: features where
  "al_features = [(''years_exp'', PyFloat 1), (''skill_count'', PyInt 0), (''format_score'', PyFloat 2),
     (''num_experience_items'', PyInt 0)]"

definition al_out :: inference_output where
  "al_out = \<lparr>o_parsed = al_parsed, o_features = al_features,
              o_score = \<lparr>label = None, confidence = None\<rparr>\<rparr>"

definition al_out_scored :: inference_output where
  "al_out_scored = \<lparr>o_parsed = al_parsed, o_features = al_features,
                     o_score = \<lparr>label = Some 1, confidence = Some (3 / 4)\<rparr>\<rparr>"

definition failing_classifier :: classifier where
  "failing_classifier =
     \<lparr>clf_predict = (\<lambda>X. Inl (OtherError ''not fitted'')), clf_predict_proba = None\<rparr>"

definition empty_proba_classifier :: classifier where
  "empty_proba_classifier =
     \<lparr>clf_predict = (\<lambda>X. Inr (PyInt 1)), clf_predict_proba = Some (\<lambda>X. Inr [])\<rparr>"

definition none_label_classifier :: classifier where
  "none_label_classifier = \<lparr>clf_predict = (\<lambda>X. Inr PyNone), clf_predict_proba = None\<rparr>"

definition bullets_only :: parsed where
  "bullets_only = \<lparr>p_name = None, p_emails = None, p_phones = None, p_skills = None,
     p_experience = Some [\<lparr>e_title = None, e_date_text = None, e_bullets = Some [''a'', ''b'', ''c'']\<rparr>,
                          \<lparr>e_title = None, e_date_text = Some ''n/a'', e_bullets = Some [''d'', ''e'']\<rparr>,
                          \<lparr>e_title = None, e_date_text = Some [], e_bullets = None\<rparr>],
     p_education = None, p_sections = None, p_raw_text = None\<rparr>"

definition many_bullets :: parsed where
  "many_bullets = \<lparr>p_name = None, p_emails = None, p_phones = None, p_skills = None,
     p_experience = Some [\<lparr>e_title = None, e_date_text = None, e_bullets = Some (replicate 40 ''b'')\<rparr>],
     p_education = None, p_sections = None, p_raw_text = None\<rparr>"

definition two_jobs :: parsed where
  "two_jobs = \<lparr>p_name = None, p_emails = None, p_phones = None, p_skills = None,
     p_experience = Some [\<lparr>e_title = None, e_date_text = Some ''Feb 2019 - Sep 2022'', e_bullets = None\<rparr>,
                          \<lparr>e_title = None, e_date_text = Some ''2018'', e_bullets = Some [''a'']\<rparr>,
                          \<lparr>e_title = None, e_date_text = Some ''2022 to 2020'', e_bullets = None\<rparr>,
                          \<lparr>e_title = None, e_date_text = None, e_bullets = None\<rparr>],
     p_education = None, p_sections = None, p_raw_text = None\<rparr>"

section \<open>Properties\<close>

subsection \<open>The years of experience\<close>

lemma takeWhile_take_all: "n \<le> length (takeWhile p s) \<Longrightarrow> list_all p (take n s)"
proof (induction s arbitrary: n)
  case Nil then show ?case by simp
next
  case (Cons c cs)
  then show ?case by (cases n) (auto split: if_splits)
qed

lemma match_len_DATE_RE:
  assumes "match_len DATE_RE s = Some n"
  shows "n = 4 \<and> 4 \<le> length s \<and> list_all is_digit (take 4 s)"
proof -
  let ?k = "length (takeWhile is_digit s)"
  have ge: "4 \<le> ?k"
  proof (rule ccontr)
    assume "\<not> 4 \<le> ?k"
    then have "min 4 ?k < 4" by simp
    then have "rmatch DATE_RE s = []" by (simp add: DATE_RE_def Let_def)
    with assms show False by (simp add: match_len_def)
  qed
  have "rmatch DATE_RE s = [drop 4 s]"
    using ge by (simp add: DATE_RE_def Let_def min_def)
  moreover have len: "4 \<le> length s" using ge length_takeWhile_le [of is_digit s] by linarith
  ultimately have "n = 4" using assms by (simp add: match_len_def)
  with len takeWhile_take_all [OF ge] show ?thesis by simp
qed

lemma finditer_DATE_RE: "y \<in> set (finditer DATE_RE s) \<Longrightarrow> length y = 4 \<and> list_all is_digit y"
proof (induction DATE_RE s rule: finditer.induct)
  case 1 then show ?case by simp
next
  case (2 c cs)
  show ?case
  proof (cases "match_len DATE_RE (c # cs)")
    case None
    with 2 show ?thesis by simp
  next
    case (Some n)
    from match_len_DATE_RE [OF Some]
    have n: "n = 4" "4 \<le> length (c # cs)" "list_all is_digit (take 4 (c # cs))"
      by auto
    from 2(3) Some have "y = take n (c # cs) \<or> y \<in> set (finditer DATE_RE (drop (n - 1) cs))" by simp
    then show ?thesis
    proof
      assume "y = take n (c # cs)"
      with n show ?thesis by simp
    next
      assume "y \<in> set (finditer DATE_RE (drop (n - 1) cs))"
      with 2(2) [OF Some] show ?thesis by simp
    qed
  qed
qed

lemma py_int_of_year: "y \<in> set (finditer DATE_RE s) \<Longrightarrow> py_int_of_str y = Inr (decimal_value y)"
  using finditer_DATE_RE [of y s] by (auto simp: py_int_of_str_def)

lemma years_loop_contributions: "years_loop years es = years @ concat (map contribution es)"
proof (induction es arbitrary: years)
  case Nil then show ?case by simp
next
  case (Cons e es)
  let ?found = "finditer DATE_RE (get_or (e_date_text e) [])"
  show ?case
  proof (cases ?found)
    case Nil
    with Cons show ?thesis by (simp add: contribution_def years_found_def)
  next
    case c1: (Cons y1 ys)
    show ?thesis
    proof (cases ys)
      case Nil
      with c1 Cons show ?thesis by (simp add: contribution_def years_found_def)
    next
      case c2: (Cons y2 zs)
      have "y1 \<in> set ?found" "y2 \<in> set ?found" using c1 c2 by simp_all
      then have "py_int_of_str y1 = Inr (decimal_value y1)" "py_int_of_str y2 = Inr (decimal_value y2)"
        by (simp_all add: py_int_of_year)
      with c1 c2 Cons show ?thesis by (simp add: contribution_def years_found_def)
    qed
  qed
qed

lemma no_contribution_iff:
  "concat (map contribution es) = [] \<longleftrightarrow> list_all (\<lambda>e. years_found e = []) es"
  by (induction es) (auto simp: contribution_def split: list.splits)

lemma count_bullets_total:
  "count_bullets p =
     length (concat (map (\<lambda>e. get_or (e_bullets e) []) (get_or (p_experience p) [])))"
  by (simp add: count_bullets_def length_concat o_def)

text \<open>
  Claim C5. The years of experience are the sum of what the entries contribute: an entry
  whose \<open>date_text\<close> has at least two 4-digit years contributes the second minus the first,
  or 0 when that is negative, and an entry with exactly one contributes 1. When no entry has a
  4-digit year, so that none contributes, the result is the smaller of 1.0 plus 0.5 times
  the total number of bullets, those of all the entries counted together, and 20.0. A missing
  \<open>experience\<close>, \<open>date_text\<close> or \<open>bullets\<close> counts as empty.
\<close>

theorem estimate_years_experience_heuristic:
  "estimate_years_experience p =
     (if list_all (\<lambda>e. years_found e = []) (get_or (p_experience p) [])
      then min (1.0 + 0.5 * real (length (concat (map (\<lambda>e. get_or (e_bullets e) [])
                                                 (get_or (p_experience p) [])))))
               20.0
      else real_of_int (sum_list (concat (map contribution (get_or (p_experience p) [])))))"
  by (simp add: estimate_years_experience_def no_contribution_iff [symmetric]
        years_loop_contributions [of "[]", simplified] count_bullets_total)

theorem estimate_years_experience_heuristic_witness:
  "estimate_years_experience two_jobs = 4
   \<and> map contribution (get_or (p_experience two_jobs) []) = [[3], [1], [0], []]
   \<and> estimate_years_experience al_parsed = 1
   \<and> list_all (\<lambda>e. years_found e = []) (get_or (p_experience bullets_only) [])
   \<and> length (concat (map (\<lambda>e. get_or (e_bullets e) []) (get_or (p_experience bullets_only) []))) = 5
   \<and> estimate_years_experience bullets_only = 7 / 2
   \<and> length (concat (map (\<lambda>e. get_or (e_bullets e) []) (get_or (p_experience many_bullets) []))) = 40
   \<and> estimate_years_experience many_bullets = 20"
  using estimate_years_experience_heuristic [of two_jobs]
    estimate_years_experience_heuristic [of al_parsed]
    estimate_years_experience_heuristic [of bullets_only]
    estimate_years_experience_heuristic [of many_bullets]
  by code_simp

subsection \<open>The formatting score\<close>

text \<open>
  Claim C10. The formatting score is the sum of four parts: 2.0 for each section up to 5
  sections, so at most 10.0; 3.0 for a list of emails that is not empty; 2.0 for a list of
  phones that is not empty; 0.5 for each bullet up to 10 bullets, so at most 5.0. It lies
  between 0.0 and 20.0.
\<close>

theorem formatting_score_range:
  "formatting_score p =
       2 * real (min (length (get_or (p_sections p) [])) 5)
     + (if truthy (p_emails p) then 3 else 0)
     + (if truthy (p_phones p) then 2 else 0)
     + real (min (count_bullets p) 10) / 2
   \<and> 2 * real (min (length (get_or (p_sections p) [])) 5) \<le> 10
   \<and> real (min (count_bullets p) 10) / 2 \<le> 5
   \<and> 0 \<le> formatting_score p \<and> formatting_score p \<le> 20"
  by (simp add: formatting_score_def Let_def min_def)

subsection \<open>The feature vector\<close>

text \<open>
  Claim C3. Whatever fields the parsed dictionary has or lacks, the features are a dictionary
  with exactly the four keys \<open>years_exp\<close>, \<open>skill_count\<close>, \<open>format_score\<close> and
  \<open>num_experience_items\<close>, each with a number as its value.
\<close>

theorem extract_features_keys:
  "map fst (extract_features p) = [''years_exp'', ''skill_count'', ''format_score'', ''num_experience_items'']
   \<and> list_all (\<lambda>(k, v). is_numeric v) (extract_features p)
   \<and> extract_features p =
       [(''years_exp'', PyFloat (estimate_years_experience p)),
        (''skill_count'', PyInt (count_skills p)),
        (''format_score'', PyFloat (formatting_score p)),
        (''num_experience_items'', PyInt (int (length (get_or (p_experience p) []))))]"
  by (simp add: extract_features_def Let_def)

subsection \<open>The skills\<close>

lemma starts_with_iff: "starts_with sub s \<longleftrightarrow> (\<exists>post. s = sub @ post)"
  by (induction sub s rule: starts_with.induct) auto

lemma py_in_iff: "py_in sub s \<longleftrightarrow> (\<exists>pre post. s = pre @ sub @ post)"
proof (induction s)
  case Nil
  then show ?case by simp
next
  case (Cons c cs)
  show ?case
  proof
    assume "py_in sub (c # cs)"
    then consider "starts_with sub (c # cs)" | "py_in sub cs" by auto
    then show "\<exists>pre post. c # cs = pre @ sub @ post"
    proof cases
      case 1
      then obtain post where "c # cs = sub @ post" by (auto simp: starts_with_iff)
      then have "c # cs = [] @ sub @ post" by simp
      then show ?thesis by blast
    next
      case 2
      with Cons obtain pre post where "cs = pre @ sub @ post" by auto
      then have "c # cs = (c # pre) @ sub @ post" by simp
      then show ?thesis by blast
    qed
  next
    assume "\<exists>pre post. c # cs = pre @ sub @ post"
    then obtain pre post where eq: "c # cs = pre @ sub @ post" by auto
    show "py_in sub (c # cs)"
    proof (cases pre)
      case Nil
      with eq have "starts_with sub (c # cs)" by (auto simp: starts_with_iff)
      then show ?thesis by simp
    next
      case (Cons d pre')
      with eq have "cs = pre' @ sub @ post" by simp
      with Cons.IH have "py_in sub cs" by auto
      then show ?thesis by simp
    qed
  qed
qed

lemma skills_loop_set:
  "skills_loop text_low found seed = found \<union> {s \<in> set seed. py_in (py_lower s) text_low}"
  by (induction seed arbitrary: found) auto

lemma finite_skills_loop: "finite found \<Longrightarrow> finite (skills_loop text_low found seed)"
  by (simp add: skills_loop_set)

text \<open>
  Claim C6. For every text and every seed list, \<open>extract_skills\<close> returns the sorted list
  without duplicates of exactly those seed skills whose lowercase form is a substring of the
  lowercased text; every element returned is a member of the seed list.
\<close>

theorem extract_skills_sorted_seed_subset:
  "sorted (extract_skills text skills_seed)
   \<and> distinct (extract_skills text skills_seed)
   \<and> set (extract_skills text skills_seed) =
       {s \<in> set skills_seed. \<exists>pre post. py_lower text = pre @ py_lower s @ post}
   \<and> set (extract_skills text skills_seed) \<subseteq> set skills_seed"
  by (auto simp: extract_skills_def Let_def finite_skills_loop skills_loop_set py_in_iff)

theorem extract_skills_witness:
  "extract_skills ''SQL on AWS'' SKILLS_SEED =
     [''aws'', ''sql'']
   \<and> sorted (extract_skills ''SQL on AWS'' SKILLS_SEED)
   \<and> set (extract_skills ''SQL on AWS'' SKILLS_SEED) \<subseteq> set SKILLS_SEED"
proof -
  have "extract_skills ''SQL on AWS'' SKILLS_SEED =
          [''aws'', ''sql'']"
    by code_simp
  with extract_skills_sorted_seed_subset [of "''SQL on AWS''" SKILLS_SEED]
  show ?thesis by blast
qed

subsection \<open>The sections\<close>

lemma py_join_nl: "buffer \<noteq> [] \<Longrightarrow> py_join [CHR 0x0A] buffer @ [CHR 0x0A] = nl_concat buffer"
  by (induction "[CHR 0x0A]" buffer rule: py_join.induct) (simp_all add: nl_concat_def)

lemma map_of_dict_append_old:
  "map_of (map (\<lambda>(k', v'). if k' = k then (k', v' @ v) else (k', v')) d) k' =
     (if k' = k then map_option (\<lambda>v'. v' @ v) (map_of d k) else map_of d k')"
  by (induction d) auto

lemma cont_dict_append:
  "cont (dict_append d k v) = (cont d)(k := cont d k @ v)"
proof (cases "k \<in> set (map fst d)")
  case True
  then obtain v0 where "map_of d k = Some v0"
    by (metis map_of_eq_None_iff not_Some_eq set_map)
  with True show ?thesis
    by (auto simp: cont_def dict_append_def map_of_dict_append_old fun_eq_iff simp del: set_map)
next
  case False
  then have "map_of d k = None" by (simp add: map_of_eq_None_iff)
  with False show ?thesis
    by (auto simp: cont_def dict_append_def fun_eq_iff map_add_def split: option.splits)
qed

lemma dict_append_keys:
  "map fst (map (\<lambda>(k', v'). if k' = k then (k', v' @ v) else (k', v')) d) = map fst d"
  by (induction d) auto

lemma dict_append_values:
  "[] \<notin> snd ` set d \<Longrightarrow>
   [] \<notin> snd ` set (map (\<lambda>(k', v'). if k' = k then (k', v' @ v) else (k', v')) d)"
  by (induction d) (auto split: if_splits)

lemma dict_ok_append:
  assumes "dict_ok d" and "v \<noteq> []"
  shows "dict_ok (dict_append d k v)"
proof (cases "k \<in> set (map fst d)")
  case True
  then have eq: "dict_append d k v = map (\<lambda>(k', v'). if k' = k then (k', v' @ v) else (k', v')) d"
    by (simp add: dict_append_def del: set_map)
  from assms have "[] \<notin> snd ` set d" by (simp add: dict_ok_def)
  from dict_append_values [OF this, of k v] assms(1) show ?thesis
    unfolding dict_ok_def eq dict_append_keys by blast
next
  case False
  with assms show ?thesis by (auto simp: dict_ok_def dict_append_def)
qed

lemma nl_concat_eq_Nil: "nl_concat ls = [] \<longleftrightarrow> ls = []"
  by (cases ls) (simp_all add: nl_concat_def)

lemma cont_flush:
  "cont (flush d current buffer) = (cont d)(current := cont d current @ nl_concat buffer)"
  by (cases "buffer = []") (simp_all add: flush_def cont_dict_append py_join_nl nl_concat_def)

lemma dict_ok_flush: "dict_ok d \<Longrightarrow> dict_ok (flush d current buffer)"
  by (auto simp: flush_def intro!: dict_ok_append)

lemma section_text_Cons:
  "section_text ((c, l) # tagged) k = (if c = k then l @ [CHR 0x0A] else []) @ section_text tagged k"
  by (simp add: section_text_def section_lines_def nl_concat_def)

lemma section_text_Nil: "section_text [] k = []"
  by (simp add: section_text_def section_lines_def nl_concat_def)

lemma sections_loop_Cons:
  "sections_loop d current buffer (l # ls) =
     (if l = [] then sections_loop (flush d current buffer) current [] ls
      else if is_section_header l then sections_loop (flush d current buffer) (section_name l) [] ls
      else sections_loop d current (buffer @ [l]) ls)"
  by (auto simp: is_section_header_def section_name_def Let_def)

lemma sections_loop_cont:
  "cont (sections_loop d current buffer ls) k =
     cont d k @ (if k = current then nl_concat buffer else []) @ section_text (tag_lines current ls) k"
proof (induction ls arbitrary: d current buffer)
  case Nil
  then show ?case by (simp add: cont_flush section_text_Nil)
next
  case (Cons l ls)
  show ?case
  proof (cases "l = []")
    case True
    then show ?thesis
      by (simp add: sections_loop_Cons Cons.IH cont_flush nl_concat_def del: sections_loop.simps)
  next
    case False
    show ?thesis
    proof (cases "is_section_header l")
      case True
      with False show ?thesis
        by (simp add: sections_loop_Cons Cons.IH cont_flush nl_concat_def del: sections_loop.simps)
    next
      case h: False
      with False show ?thesis
        by (simp add: sections_loop_Cons Cons.IH nl_concat_def section_text_Cons
              del: sections_loop.simps)
    qed
  qed
qed

lemma sections_loop_ok: "dict_ok d \<Longrightarrow> dict_ok (sections_loop d current buffer ls)"
proof (induction ls arbitrary: d current buffer)
  case Nil
  then show ?case by (simp add: dict_ok_flush)
next
  case (Cons l ls)
  then show ?case by (simp add: sections_loop_Cons dict_ok_flush del: sections_loop.simps)
qed

lemma map_of_cont: "dict_ok d \<Longrightarrow> map_of d k = (if cont d k = [] then None else Some (cont d k))"
proof (cases "map_of d k")
  case None
  then show ?thesis by (simp add: cont_def)
next
  case (Some v)
  assume "dict_ok d"
  from Some have "(k, v) \<in> set d" by (rule map_of_SomeD)
  with \<open>dict_ok d\<close> have "v \<noteq> []" by (force simp: dict_ok_def)
  with Some show ?thesis by (simp add: cont_def)
qed

lemma section_text_eq_Nil: "section_text tagged k = [] \<longleftrightarrow> k \<notin> fst ` set tagged"
  by (induction tagged) (auto simp: section_text_Cons section_text_Nil)

lemma partition_by_key:
  "distinct ks \<Longrightarrow>
   mset (concat (map (\<lambda>k. filter (\<lambda>x. f x = k) xs) ks)) = mset (filter (\<lambda>x. f x \<in> set ks) xs)"
proof (induction ks)
  case Nil
  then show ?case by simp
next
  case (Cons k ks)
  then have "k \<notin> set ks" "distinct ks" by simp_all
  have "mset (filter (\<lambda>x. f x = k) xs) + mset (filter (\<lambda>x. f x \<in> set ks) xs)
        = mset (filter (\<lambda>x. f x \<in> set (k # ks)) xs)"
    using \<open>k \<notin> set ks\<close> by (induction xs) auto
  with Cons.IH [OF \<open>distinct ks\<close>] show ?case by simp
qed

lemma section_lines_partition:
  assumes "distinct ks" and "fst ` set tagged \<subseteq> set ks"
  shows "mset (concat (map (section_lines tagged) ks)) = mset (map snd tagged)"
proof -
  from assms(2) have "filter (\<lambda>x. fst x \<in> set ks) tagged = tagged"
    by (auto simp: filter_id_conv)
  with partition_by_key [OF assms(1), of fst tagged]
  have "mset (concat (map (\<lambda>k. filter (\<lambda>x. fst x = k) tagged) ks)) = mset tagged" by simp
  then have "mset (map snd (concat (map (\<lambda>k. filter (\<lambda>x. fst x = k) tagged) ks))) = mset (map snd tagged)"
    by (metis mset_map)
  moreover have "concat (map (section_lines tagged) ks) =
                 map snd (concat (map (\<lambda>k. filter (\<lambda>x. fst x = k) tagged) ks))"
    by (simp add: map_concat o_def section_lines_def [abs_def])
  ultimately show ?thesis by simp
qed

lemma tag_lines_snd:
  "map snd (tag_lines current ls) = filter (\<lambda>l. l \<noteq> [] \<and> \<not> is_section_header l) ls"
  by (induction ls arbitrary: current) auto

text \<open>
  Claim C7. \<open>split_into_sections\<close> starts a new section at precisely the header lines, which
  are never blank. Every other line that is not blank goes, stripped as all lines are, to the
  text of the section current at that line, the first one named \<open>header\<close>: the text under a
  key is made of the lines with that section name, in order, and a key is present exactly
  when there is such a line. So the lines of all the sections together are the lines that are
  neither blank nor headers, each once.
\<close>

theorem split_into_sections_groups_lines:
  "\<not> is_section_header []
   \<and> distinct (map fst (split_into_sections text))
   \<and> map_of (split_into_sections text) k =
       (if k \<in> fst ` set (tag_lines ''header'' (map py_strip (splitlines text)))
        then Some (section_text (tag_lines ''header'' (map py_strip (splitlines text))) k)
        else None)
   \<and> map snd (tag_lines ''header'' (map py_strip (splitlines text))) =
       filter (\<lambda>l. l \<noteq> [] \<and> \<not> is_section_header l) (map py_strip (splitlines text))
   \<and> mset (concat (map (section_lines (tag_lines ''header'' (map py_strip (splitlines text))))
                         (map fst (split_into_sections text)))) =
       mset (filter (\<lambda>l. l \<noteq> [] \<and> \<not> is_section_header l) (map py_strip (splitlines text)))"
proof -
  let ?lines = "map py_strip (splitlines text)"
  let ?tagged = "tag_lines ''header'' ?lines"
  have "dict_ok []" by (simp add: dict_ok_def)
  then have ok: "dict_ok (split_into_sections text)"
    by (simp add: split_into_sections_def Let_def sections_loop_ok)
  have "cont [] k' = []" for k' by (simp add: cont_def)
  then have c: "cont (split_into_sections text) k' = section_text ?tagged k'" for k'
    by (simp add: split_into_sections_def Let_def sections_loop_cont nl_concat_def)
  have m: "map_of (split_into_sections text) k' =
       (if k' \<in> fst ` set ?tagged then Some (section_text ?tagged k') else None)" for k'
    using map_of_cont [OF ok, of k'] c [of k'] by (simp add: section_text_eq_Nil)
  from ok have d: "distinct (map fst (split_into_sections text))" by (simp add: dict_ok_def)
  have "fst ` set ?tagged \<subseteq> set (map fst (split_into_sections text))"
  proof
    fix k' assume "k' \<in> fst ` set ?tagged"
    with m [of k'] have "map_of (split_into_sections text) k' \<noteq> None" by simp
    then show "k' \<in> set (map fst (split_into_sections text))"
      by (simp add: map_of_eq_None_iff)
  qed
  from section_lines_partition [OF d this]
  have p: "mset (concat (map (section_lines ?tagged) (map fst (split_into_sections text)))) =
           mset (map snd ?tagged)" .
  have "\<not> is_section_header []"
    by (simp add: is_section_header_def section_name_def py_lower_def py_strip_def strip_with_def
          SECTION_HEADERS_def)
  with d m [of k] p show ?thesis by (simp add: tag_lines_snd)
qed

lemma split_into_sections_example:
  "split_into_sections (''Al'' @ [CHR 0x0A] @ ''Skills:'' @ [CHR 0x0A] @ ''  SQL'' @ [CHR 0x0A, CHR 0x0A] @ ''x'') =
     [(''header'', ''Al'' @ [CHR 0x0A]), (''skills'', ''SQL'' @ [CHR 0x0A] @ ''x'' @ [CHR 0x0A])]"
  by code_simp

subsection \<open>The experience block\<close>

lemma bullets_until_date_index: "j \<le> snd (bullets_until_date lines j bullets)"
proof (induction lines j bullets rule: bullets_until_date.induct)
  case (1 lines j bullets)
  show ?case
    using "1.IH" by (subst bullets_until_date.simps) auto
qed

lemma bullets_lookahead_index: "j \<le> snd (bullets_lookahead lines j bullets)"
proof (induction lines j bullets rule: bullets_lookahead.induct)
  case (1 lines j bullets)
  show ?case
    using "1.IH" by (subst bullets_lookahead.simps) auto
qed

lemma pe_step_same_line:
  "finditer DATE_RANGE_RE (lines ! i) \<noteq> [] \<Longrightarrow> i + 1 \<le> snd (pe_step lines i)"
  using bullets_until_date_index [of "i + 1" lines "[]"]
  by (auto simp: pe_step_def Let_def split: prod.splits)

lemma pe_step_lookahead:
  "finditer DATE_RANGE_RE (lines ! i) = [] \<Longrightarrow> i + 1 < length lines \<Longrightarrow> has_date (lines ! (i + 1))
   \<Longrightarrow> i + 2 \<le> snd (pe_step lines i)"
  using bullets_lookahead_index [of "i + 2" lines "[]"]
  by (auto simp: pe_step_def Let_def split: prod.splits)

lemma pe_step_fallback:
  "finditer DATE_RANGE_RE (lines ! i) = [] \<Longrightarrow> \<not> (i + 1 < length lines \<and> has_date (lines ! (i + 1)))
   \<Longrightarrow> snd (pe_step lines i) = i + 1"
  by (auto simp: pe_step_def Let_def)

lemma pe_step_increases: "i < snd (pe_step lines i)"
proof (cases "finditer DATE_RANGE_RE (lines ! i) = []")
  case False
  from pe_step_same_line [OF this] show ?thesis by simp
next
  case True
  show ?thesis
  proof (cases "i + 1 < length lines \<and> has_date (lines ! (i + 1))")
    case True
    with pe_step_lookahead [OF \<open>finditer DATE_RANGE_RE (lines ! i) = []\<close>, of] show ?thesis
      by fastforce
  next
    case False
    with pe_step_fallback [OF True] show ?thesis by simp
  qed
qed

lemma pe_iterate_enough: "length lines - i \<le> n \<Longrightarrow> pe_iterate n lines i out = Some (pe_loop lines i out)"
proof (induction n arbitrary: i out)
  case 0
  then have "\<not> i < length lines" by simp
  then show ?case by (simp add: pe_iterate.simps pe_loop.simps)
next
  case (Suc n)
  show ?case
  proof (cases "i < length lines")
    case False
    then show ?thesis by (simp add: pe_iterate.simps pe_loop.simps)
  next
    case True
    obtain entry j where st: "pe_step lines i = (entry, j)" by (cases "pe_step lines i")
    with pe_step_increases [of i lines] have "i < j" by simp
    with Suc.prems have "length lines - j \<le> n" by simp
    from Suc.IH [OF this]
    have "pe_iterate n lines j (out @ [entry]) = Some (pe_loop lines j (out @ [entry]))" .
    with True st show ?thesis
      by (subst pe_iterate.simps, subst pe_loop.simps) simp
  qed
qed

text \<open>
  Claim C9. \<open>parse_experience_block\<close> terminates on every block: each iteration of its outer
  loop resumes at a larger index, at least \<open>i + 1\<close> when the date is on the line itself, at
  least \<open>i + 2\<close> when the date is on the next line, and \<open>i + 1\<close> otherwise; so the loop is
  over after at most as many iterations as the block has lines that are not blank.
\<close>

theorem parse_experience_block_terminates:
  "i < snd (pe_step lines i)
   \<and> (finditer DATE_RANGE_RE (lines ! i) \<noteq> [] \<longrightarrow> i + 1 \<le> snd (pe_step lines i))
   \<and> (finditer DATE_RANGE_RE (lines ! i) = [] \<and> i + 1 < length lines \<and> has_date (lines ! (i + 1))
        \<longrightarrow> i + 2 \<le> snd (pe_step lines i))
   \<and> (finditer DATE_RANGE_RE (lines ! i) = [] \<and> \<not> (i + 1 < length lines \<and> has_date (lines ! (i + 1)))
        \<longrightarrow> snd (pe_step lines i) = i + 1)
   \<and> pe_iterate (length (block_lines block_text)) (block_lines block_text) 0 [] =
       Some (parse_experience_block block_text)"
  using pe_step_increases pe_step_same_line pe_step_lookahead pe_step_fallback
    pe_iterate_enough [of "block_lines block_text" 0 "length (block_lines block_text)" "[]"]
  by (simp add: parse_experience_block_def)


theorem parse_experience_block_terminates_witness:
  "(finditer DATE_RANGE_RE (three_lines ! 1) \<noteq> [] \<and> 1 + 1 \<le> snd (pe_step three_lines 1))
   \<and> (finditer DATE_RANGE_RE (three_lines ! 0) = [] \<and> 0 + 1 < length three_lines
        \<and> has_date (three_lines ! (0 + 1)) \<and> 0 + 2 \<le> snd (pe_step three_lines 0))
   \<and> (finditer DATE_RANGE_RE (three_lines ! 2) = []
        \<and> \<not> (2 + 1 < length three_lines \<and> has_date (three_lines ! (2 + 1)))
        \<and> snd (pe_step three_lines 2) = 2 + 1)
   \<and> pe_iterate (length (block_lines ''Dev 2017 2018'')) (block_lines ''Dev 2017 2018'') 0 [] =
       Some (parse_experience_block ''Dev 2017 2018'')"
proof -
  have a: "finditer DATE_RANGE_RE (three_lines ! 1) \<noteq> []" by code_simp
  have b: "finditer DATE_RANGE_RE (three_lines ! 0) = []" by code_simp
  have c: "0 + 1 < length three_lines" by code_simp
  have d: "has_date (three_lines ! (0 + 1))" by code_simp
  have e: "finditer DATE_RANGE_RE (three_lines ! 2) = []" by code_simp
  have f: "\<not> (2 + 1 < length three_lines \<and> has_date (three_lines ! (2 + 1)))"
    by (simp add: three_lines_def)
  show ?thesis
    using a b c d e f
      parse_experience_block_terminates [of 1 three_lines "''Dev 2017 2018''"]
      parse_experience_block_terminates [of 0 three_lines "''Dev 2017 2018''"]
      parse_experience_block_terminates [of 2 three_lines "''Dev 2017 2018''"]
    by blast
qed

subsection \<open>The parsed record\<close>

lemma parse_text_fields:
  assumes "parse_text ner order text = Inr p"
  shows "p_raw_text p = Some text \<and> p_name p \<noteq> None \<and> p_emails p \<noteq> None \<and> p_phones p \<noteq> None
         \<and> p_skills p \<noteq> None \<and> p_experience p \<noteq> None \<and> p_education p \<noteq> None
         \<and> p_sections p \<noteq> None"
  using assms by (auto simp: parse_text_def Let_def split: sum.splits)

lemma extract_name_blank:
  "py_strip text = [] \<Longrightarrow> first_person es = None \<Longrightarrow>
   extract_name \<lparr>doc_text = text, ents = es\<rparr> = Inl IndexError"
  by (simp add: extract_name_def splitlines_def)

text \<open>
  Claim C8. \<open>parse_text\<close> returns a record with the fields \<open>name\<close>, \<open>emails\<close>, \<open>phones\<close>,
  \<open>skills\<close>, \<open>experience\<close>, \<open>education\<close>, \<open>sections\<close> and \<open>raw_text\<close>, the last equal to
  the input. That is so whenever it returns, as shown above; but on the empty text, in which
  \<open>nlp\<close> finds no entity, \<open>extract_name\<close> indexes an empty list of lines and \<open>parse_text\<close>
  raises \<open>IndexError\<close> instead of returning.
\<close>

theorem parse_text_empty_text:
  "parse_text no_entities sorted_list_of_set [] = Inl IndexError"
  by (simp add: parse_text_def no_entities_def extract_name_def py_strip_def strip_with_def
        splitlines_def)

subsection \<open>The scorer\<close>

text \<open>
  Claim C4, as stated: for every feature dictionary \<open>predict\<close> returns a dictionary whose
  label is an integer and whose confidence is a float. It does not when the model file is
  absent, where \<open>predict\<close> raises \<open>FileNotFoundError\<close>, and the confidence is \<open>None\<close> when
  the classifier has no \<open>predict_proba\<close>.
\<close>

theorem predict_counterexample:
  "predict None al_features = Inl FileNotFoundError
   \<and> predict (Some (Inr (bare_classifier, feature_names))) al_features =
       Inr \<lparr>label = Some 1, confidence = None\<rparr>"
  by (simp add: predict_def load_model_def bare_classifier_def predict_prob_def py_int_def)

text \<open>
  Claim C4, amended. When the model file loads, the calls of the classifier return and
  \<open>int\<close> accepts the label that the classifier predicts, \<open>predict\<close> returns a dictionary
  whose label is that integer and whose confidence is a float when the classifier has
  \<open>predict_proba\<close> and \<open>None\<close> when it has not; a feature missing from the dictionary is 0
  in the input of the classifier. When loading raises, as it does with \<open>FileNotFoundError\<close>
  for an absent model file, or a call of the classifier raises, or \<open>int\<close> rejects the label,
  \<open>predict\<close> raises the same exception and returns nothing.
\<close>

theorem predict_label_confidence:
  "(load_model file = Inr (m, feature_list)
      \<and> clf_predict m (classifier_input feats feature_list) = Inr score_label
      \<and> predict_prob m (classifier_input feats feature_list) = Inr prob
      \<and> py_int score_label = Inr n
    \<longrightarrow> predict file feats = Inr \<lparr>label = Some n, confidence = prob\<rparr>
        \<and> (prob = None \<longleftrightarrow> clf_predict_proba m = None))
   \<and> classifier_input feats feature_list =
       map (\<lambda>f. case map_of feats f of None \<Rightarrow> PyInt 0 | Some v \<Rightarrow> v) feature_list
   \<and> (load_model file = Inl err \<longrightarrow> predict file feats = Inl err)
   \<and> load_model None = Inl FileNotFoundError
   \<and> (load_model file = Inr (m, feature_list)
        \<and> clf_predict m (classifier_input feats feature_list) = Inl err
      \<longrightarrow> predict file feats = Inl err)
   \<and> (load_model file = Inr (m, feature_list)
        \<and> clf_predict m (classifier_input feats feature_list) = Inr score_label
        \<and> predict_prob m (classifier_input feats feature_list) = Inl err
      \<longrightarrow> predict file feats = Inl err)
   \<and> (load_model file = Inr (m, feature_list)
        \<and> clf_predict m (classifier_input feats feature_list) = Inr score_label
        \<and> predict_prob m (classifier_input feats feature_list) = Inr prob
        \<and> py_int score_label = Inl err
      \<longrightarrow> predict file feats = Inl err)"
  by (auto simp: predict_def load_model_def classifier_input_def get_or_def predict_prob_def
        split: option.splits sum.splits)

theorem predict_label_confidence_witness:
  "load_model (Some (Inr (constant_classifier, feature_names))) = Inr (constant_classifier, feature_names)
   \<and> clf_predict constant_classifier (classifier_input [(''years_exp'', PyFloat 3)] feature_names) = Inr (PyInt 1)
   \<and> predict_prob constant_classifier (classifier_input [(''years_exp'', PyFloat 3)] feature_names) = Inr (Some (3 / 4))
   \<and> py_int (PyInt 1) = Inr 1
   \<and> predict (Some (Inr (constant_classifier, feature_names))) [(''years_exp'', PyFloat 3)] =
        Inr \<lparr>label = Some 1, confidence = Some (3 / 4)\<rparr>
   \<and> classifier_input [(''years_exp'', PyFloat 3)] feature_names = [PyFloat 3, PyInt 0, PyInt 0, PyInt 0]
   \<and> load_model None = Inl FileNotFoundError
   \<and> predict None [(''years_exp'', PyFloat 3)] = Inl FileNotFoundError
   \<and> clf_predict failing_classifier (classifier_input [(''years_exp'', PyFloat 3)] feature_names) =
        Inl (OtherError ''not fitted'')
   \<and> predict (Some (Inr (failing_classifier, feature_names))) [(''years_exp'', PyFloat 3)] =
        Inl (OtherError ''not fitted'')
   \<and> predict_prob empty_proba_classifier (classifier_input [(''years_exp'', PyFloat 3)] feature_names) =
        Inl ValueError
   \<and> predict (Some (Inr (empty_proba_classifier, feature_names))) [(''years_exp'', PyFloat 3)] =
        Inl ValueError
   \<and> clf_predict none_label_classifier (classifier_input [(''years_exp'', PyFloat 3)] feature_names) =
        Inr PyNone
   \<and> py_int PyNone = Inl TypeError
   \<and> predict (Some (Inr (none_label_classifier, feature_names))) [(''years_exp'', PyFloat 3)] =
        Inl TypeError"
proof -
  let ?feats = "[(''years_exp'', PyFloat 3)]"
  let ?X = "classifier_input ?feats feature_names"
  have a: "load_model (Some (Inr (c, feature_names))) = Inr (c, feature_names)" for c
    by (simp add: load_model_def)
  have b: "clf_predict constant_classifier ?X = Inr (PyInt 1)"
    by (simp add: constant_classifier_def)
  have c: "predict_prob constant_classifier ?X = Inr (Some (3 / 4))"
    by (simp add: constant_classifier_def predict_prob_def array_max_def)
  have d: "py_int (PyInt 1) = Inr 1" by (simp add: py_int_def)
  have e: "?X = [PyFloat 3, PyInt 0, PyInt 0, PyInt 0]"
    by (simp add: classifier_input_def feature_names_def get_or_def)
  have f: "load_model None = Inl FileNotFoundError" by (simp add: load_model_def)
  have g: "clf_predict failing_classifier ?X = Inl (OtherError ''not fitted'')"
    by (simp add: failing_classifier_def)
  have h: "clf_predict empty_proba_classifier ?X = Inr (PyInt 1)"
    by (simp add: empty_proba_classifier_def)
  have i: "predict_prob empty_proba_classifier ?X = Inl ValueError"
    by (simp add: empty_proba_classifier_def predict_prob_def array_max_def)
  have j: "clf_predict none_label_classifier ?X = Inr PyNone"
    by (simp add: none_label_classifier_def)
  have k: "predict_prob none_label_classifier ?X = Inr None"
    by (simp add: none_label_classifier_def predict_prob_def)
  have l: "py_int PyNone = Inl TypeError" by (simp add: py_int_def)
  from a [of constant_classifier] b c d
    predict_label_confidence [of "Some (Inr (constant_classifier, feature_names))" constant_classifier
      feature_names ?feats "PyInt 1" "Some (3 / 4)" 1 FileNotFoundError]
  have ok: "predict (Some (Inr (constant_classifier, feature_names))) ?feats =
              Inr \<lparr>label = Some 1, confidence = Some (3 / 4)\<rparr>"
    by blast
  from f predict_label_confidence [of None constant_classifier
      feature_names ?feats "PyInt 1" "Some (3 / 4)" 1 FileNotFoundError]
  have absent: "predict None ?feats = Inl FileNotFoundError"
    by blast
  from a [of failing_classifier] g
    predict_label_confidence [of "Some (Inr (failing_classifier, feature_names))" failing_classifier
      feature_names ?feats "PyInt 1" None 1 "OtherError ''not fitted''"]
  have failing: "predict (Some (Inr (failing_classifier, feature_names))) ?feats =
                   Inl (OtherError ''not fitted'')"
    by blast
  from a [of empty_proba_classifier] h i
    predict_label_confidence [of "Some (Inr (empty_proba_classifier, feature_names))"
      empty_proba_classifier feature_names ?feats "PyInt 1" None 1 ValueError]
  have empty: "predict (Some (Inr (empty_proba_classifier, feature_names))) ?feats = Inl ValueError"
    by blast
  from a [of none_label_classifier] j k l
    predict_label_confidence [of "Some (Inr (none_label_classifier, feature_names))"
      none_label_classifier feature_names ?feats PyNone None 1 TypeError]
  have none: "predict (Some (Inr (none_label_classifier, feature_names))) ?feats = Inl TypeError"
    by blast
  from a [of constant_classifier] b c d e f g i j l ok absent failing empty none
  show ?thesis by blast
qed

subsection \<open>The pipeline\<close>

lemma predict_missing_model: "load_model file = Inl FileNotFoundError \<Longrightarrow> predict file feats = Inl FileNotFoundError"
  by (simp add: predict_def)

text \<open>
  Claim C1, as stated: the result of \<open>run_inference_on_text\<close> is the composition of the three
  stages, its score being the prediction of the scorer. Without a model file the scorer
  raises \<open>FileNotFoundError\<close> and predicts nothing, yet \<open>run_inference_on_text\<close> returns,
  with a score that holds \<open>None\<close> twice.
\<close>

theorem run_inference_counterexample:
  "run_inference_on_text env_without_model ''Al'' = Inr al_out
   \<and> o_score al_out = \<lparr>label = None, confidence = None\<rparr>
   \<and> predict (model env_without_model) (o_features al_out) = Inl FileNotFoundError
   \<and> pipeline env_without_model ''Al'' = Inl FileNotFoundError"
proof -
  have r: "run_inference_on_text env_without_model ''Al'' = Inr al_out"
    by code_simp
  have p: "parse_text (nlp env_without_model) (set_order env_without_model) ''Al'' = Inr al_parsed"
    by code_simp
  have f: "predict (model env_without_model) feats = Inl FileNotFoundError" for feats
    by (simp add: predict_def load_model_def env_without_model_def)
  from r p f show ?thesis
    by (simp add: pipeline_def al_out_def)
qed

text \<open>
  Claim C1, amended. \<open>run_inference_on_text\<close> equals the composition of the three stages,
  with \<open>parsed\<close> the result of \<open>parse_text\<close>, \<open>features\<close> the features of that result and
  \<open>score\<close> the prediction of the scorer on those features, except when the scorer raises
  \<open>FileNotFoundError\<close>: then it returns the same \<open>parsed\<close> and \<open>features\<close> with the score
  \<open>{"label": None, "confidence": None}\<close>.
\<close>

theorem run_inference_is_pipeline:
  "run_inference_on_text env text =
     (case parse_text (nlp env) (set_order env) text of
        Inl err \<Rightarrow> pipeline env text
      | Inr p \<Rightarrow>
          if predict (model env) (extract_features p) = Inl FileNotFoundError
          then Inr \<lparr>o_parsed = p, o_features = extract_features p,
                    o_score = \<lparr>label = None, confidence = None\<rparr>\<rparr>
          else pipeline env text)"
  by (auto simp: run_inference_on_text_def pipeline_def Let_def split: sum.splits py_error.splits)

text \<open>
  Claim C2. When loading the model raises \<open>FileNotFoundError\<close>, \<open>run_inference_on_text\<close>
  does not pass the exception on: it returns with the score \<open>{"label": None, "confidence":
  None}\<close> and with the \<open>parsed\<close> and \<open>features\<close> that it returns when the model is present.
  No other exception is caught: one that the scorer raises leaves the function. (The model is
  loaded after \<open>parse_text\<close> has returned; an exception of \<open>parse_text\<close> is outside the
  \<open>try\<close> and leaves the function whatever the model file.)
\<close>

theorem run_inference_missing_model:
  "(load_model (model env) = Inl FileNotFoundError \<longrightarrow>
      run_inference_on_text env text =
        (case parse_text (nlp env) (set_order env) text of
           Inl err \<Rightarrow> Inl err
         | Inr p \<Rightarrow> Inr \<lparr>o_parsed = p, o_features = extract_features p,
                         o_score = \<lparr>label = None, confidence = None\<rparr>\<rparr>))
   \<and> (run_inference_on_text env text = Inr out \<and> run_inference_on_text (env\<lparr>model := file\<rparr>) text = Inr out'
        \<longrightarrow> o_parsed out' = o_parsed out \<and> o_features out' = o_features out)
   \<and> (parse_text (nlp env) (set_order env) text = Inr p \<and> predict file (extract_features p) = Inl err
        \<and> err \<noteq> FileNotFoundError
        \<longrightarrow> run_inference_on_text (env\<lparr>model := file\<rparr>) text = Inl err)"
proof (intro conjI impI)
  assume "load_model (model env) = Inl FileNotFoundError"
  then have "predict (model env) feats = Inl FileNotFoundError" for feats
    by (rule predict_missing_model)
  then show "run_inference_on_text env text =
        (case parse_text (nlp env) (set_order env) text of
           Inl err \<Rightarrow> Inl err
         | Inr p \<Rightarrow> Inr \<lparr>o_parsed = p, o_features = extract_features p,
                         o_score = \<lparr>label = None, confidence = None\<rparr>\<rparr>)"
    by (simp add: run_inference_on_text_def Let_def split: sum.splits)
next
  assume a: "run_inference_on_text env text = Inr out \<and> run_inference_on_text (env\<lparr>model := file\<rparr>) text = Inr out'"
  then show "o_parsed out' = o_parsed out"
    by (auto simp: run_inference_on_text_def Let_def split: sum.splits py_error.splits)
  from a show "o_features out' = o_features out"
    by (auto simp: run_inference_on_text_def Let_def split: sum.splits py_error.splits)
next
  assume "parse_text (nlp env) (set_order env) text = Inr p \<and> predict file (extract_features p) = Inl err
        \<and> err \<noteq> FileNotFoundError"
  then show "run_inference_on_text (env\<lparr>model := file\<rparr>) text = Inl err"
    by (cases err) (simp_all add: run_inference_on_text_def Let_def)
qed

theorem run_inference_missing_model_witness:
  "load_model (model env_without_model) = Inl FileNotFoundError
   \<and> run_inference_on_text env_without_model ''Al'' = Inr al_out
   \<and> run_inference_on_text (env_without_model\<lparr>model := model env_with_model\<rparr>) ''Al'' = Inr al_out_scored
   \<and> o_parsed al_out_scored = o_parsed al_out \<and> o_features al_out_scored = o_features al_out
   \<and> parse_text (nlp env_without_model) (set_order env_without_model) ''Al'' = Inr al_parsed
   \<and> predict corrupt_file (extract_features al_parsed) = Inl (OtherError ''corrupt'')
   \<and> OtherError ''corrupt'' \<noteq> FileNotFoundError
   \<and> run_inference_on_text (env_without_model\<lparr>model := corrupt_file\<rparr>) ''Al'' = Inl (OtherError ''corrupt'')"
proof -
  have a: "load_model (model env_without_model) = Inl FileNotFoundError"
    by (simp add: load_model_def env_without_model_def)
  have b: "parse_text (nlp env_without_model) (set_order env_without_model) ''Al'' = Inr al_parsed"
    by code_simp
  have c: "extract_features al_parsed = al_features"
    by code_simp
  have d: "predict corrupt_file (extract_features al_parsed) = Inl (OtherError ''corrupt'')"
    by (simp add: predict_def load_model_def corrupt_file_def)
  have e: "run_inference_on_text (env_without_model\<lparr>model := model env_with_model\<rparr>) ''Al'' = Inr al_out_scored"
    by code_simp
  note t1 = run_inference_missing_model [of env_without_model "''Al''" al_out "model env_with_model"
      al_out_scored al_parsed "OtherError ''corrupt''"]
  note t2 = run_inference_missing_model [of env_without_model "''Al''" al_out corrupt_file
      al_out_scored al_parsed "OtherError ''corrupt''"]
  from t1 a b c have r: "run_inference_on_text env_without_model ''Al'' = Inr al_out"
    by (simp add: al_out_def)
  from t1 r e have s: "o_parsed al_out_scored = o_parsed al_out \<and> o_features al_out_scored = o_features al_out"
    by blast
  from t2 b d have x: "run_inference_on_text (env_without_model\<lparr>model := corrupt_file\<rparr>) ''Al'' = Inl (OtherError ''corrupt'')"
    by blast
  from a r e s b d x show ?thesis by blast
qed

end
